theory Spec2Isabelle
  imports Complex_Main
begin

section \<open>Energy budget of the satellite: a model of powersupply.py\<close>

text \<open>
  The script computes with Python floats and NumPy float64 values. They are modelled as
  real numbers: every operation is the exact one, rounding is not modelled, and the
  values inf and nan that NumPy produces when a float64 is divided by zero do not exist
  here (HOL's \<open>x / 0\<close> is \<open>0\<close>). A statement below about the value of a quotient
  is therefore made only where its divisor is not zero.

  The module-level constants that a run may change (orbital period, angular step, the
  three subsystem switches and the battery constants) are the fields of a record; the
  remaining constants keep the values of the script.
\<close>

record config =
  T :: real
  step :: real
  rxtx_active :: bool
  cam_active :: bool
  AC_active :: bool
  Cmax :: real
  charging_speed :: real
  U_bat :: real

text \<open>The values of the script itself.\<close>

definition nanosat :: config where
  "nanosat = \<lparr>T = 90, step = 1 / 60, rxtx_active = True, cam_active = True,
     AC_active = True, Cmax = 200, charging_speed = 5, U_bat = 37 / 10\<rparr>"

subsection \<open>Solar power\<close>

definition Pmax :: real where
  "Pmax = 220"

definition deg2rad :: "real \<Rightarrow> real" where
  "deg2rad angle = angle * pi / 180"

definition Psolar :: "real \<Rightarrow> real" where
  "Psolar angle =
     (if sin (deg2rad angle) > 0 then Pmax * sin (deg2rad angle) else 0)"

definition deg2time :: "real \<Rightarrow> real" where
  "deg2time angle = 90 / 360 * angle"

definition time2deg :: "real \<Rightarrow> real" where
  "time2deg time = time / 90 * 360"

subsection \<open>Power consumption\<close>

definition gps_idle :: real where "gps_idle = 50"
definition mcu_idle :: real where "mcu_idle = 10"
definition imu_idle :: real where "imu_idle = 6"
definition rxtx_idle :: real where "rxtx_idle = 9 / 10"
definition cam_idle :: real where "cam_idle = 0"
definition ac_idle :: real where "ac_idle = 0"
definition env_idle :: real where "env_idle = 1"

definition Pidle :: real where
  "Pidle = gps_idle + mcu_idle + imu_idle + rxtx_idle + cam_idle + ac_idle + env_idle"

definition P_rxtx :: real where "P_rxtx = 200 - rxtx_idle"
definition T_rxtx :: real where "T_rxtx = 15"
definition start_rxtx :: real where "start_rxtx = 60"
definition end_rxtx :: real where "end_rxtx = start_rxtx + time2deg T_rxtx"
definition f_rxtx :: real where "f_rxtx = 360"

definition P_cam :: real where "P_cam = 60 - cam_idle"
definition T_cam :: real where "T_cam = 3 / 100"
definition start_cam :: real where "start_cam = 0"
definition end_cam :: real where "end_cam = 180"
definition f_cam :: real where "f_cam = 5"

definition P_ac :: real where "P_ac = 66 - ac_idle"
definition T_ac :: real where "T_ac = 1"
definition start_ac :: real where "start_ac = 0"
definition f_ac :: real where "f_ac = 10"

text \<open>
  The remainder \<open>x % y\<close> of a float64 by a positive number: NumPy's floored remainder,
  which has the sign of the divisor. The script only divides by the three repeat
  periods, which are positive constants.
\<close>

definition fmod :: "real \<Rightarrow> real \<Rightarrow> real" where
  "fmod x y = x - y * of_int \<lfloor>x / y\<rfloor>"

text \<open>The three conditions of the consumption loop, one for each periodic subsystem.\<close>

definition cam_on :: "real \<Rightarrow> bool" where
  "cam_on angle \<longleftrightarrow>
     fmod angle f_cam \<ge> start_cam \<and> fmod angle f_cam < time2deg T_cam
     \<and> angle \<ge> start_cam \<and> angle < end_cam"

definition rxtx_on :: "real \<Rightarrow> bool" where
  "rxtx_on angle \<longleftrightarrow>
     fmod angle f_rxtx \<ge> start_rxtx \<and> fmod angle f_rxtx < end_rxtx
     \<and> angle \<ge> start_rxtx \<and> angle < end_rxtx"

definition ac_on :: "real \<Rightarrow> bool" where
  "ac_on angle \<longleftrightarrow> fmod angle f_ac \<ge> start_ac \<and> fmod angle f_ac < time2deg T_ac"

text \<open>
  One entry of the array \<open>Pactive\<close>: it starts at zero and each enabled subsystem whose
  condition holds adds its peak draw, in the order camera, transceiver, attitude control.
  The entry at index \<open>i\<close> depends on \<open>angles[i]\<close> only, so the array is modelled as a
  function of the angle.
\<close>

definition Pactive :: "config \<Rightarrow> real \<Rightarrow> real" where
  "Pactive cfg angle =
     (let p0 = 0;
          p1 = (if cam_active cfg \<and> cam_on angle then p0 + P_cam else p0);
          p2 = (if rxtx_active cfg \<and> rxtx_on angle then p1 + P_rxtx else p1);
          p3 = (if AC_active cfg \<and> ac_on angle then p2 + P_ac else p2)
      in p3)"

definition Ptotal :: "config \<Rightarrow> real \<Rightarrow> real" where
  "Ptotal cfg angle = Pidle + Pactive cfg angle"

subsection \<open>Battery charging cycle\<close>

definition Cmaxmin :: "config \<Rightarrow> real" where
  "Cmaxmin cfg = Cmax cfg * 60"

definition I_charge :: "config \<Rightarrow> real" where
  "I_charge cfg = Cmax cfg / charging_speed cfg"

definition Pcharge :: "config \<Rightarrow> real" where
  "Pcharge cfg = U_bat cfg * I_charge cfg"

text \<open>
  The state of the loop: the running charge \<open>Cnew\<close> and the three lists the loop
  appends to.
\<close>

record battery =
  Cnew :: real
  C :: "real list"
  I :: "real list"
  level :: "real list"

definition battery_init :: "config \<Rightarrow> battery" where
  "battery_init cfg = \<lparr>Cnew = 0.5 * Cmaxmin cfg, C = [], I = [], level = []\<rparr>"

text \<open>One iteration of the loop body, for the angle of that iteration.\<close>

definition battery_step :: "config \<Rightarrow> battery \<Rightarrow> real \<Rightarrow> battery" where
  "battery_step cfg s angle =
     (if Cnew s > Cmaxmin cfg then
        s\<lparr>I := I s @ [0], C := C s @ [Cmaxmin cfg]\<rparr>
      else if Psolar angle > Ptotal cfg angle + Pcharge cfg then
        (let Pavail = Psolar angle - Ptotal cfg angle in
         if Pavail / U_bat cfg \<ge> I_charge cfg then
           (let c = Cnew s + I_charge cfg * (T cfg / 360 * step cfg) in
            s\<lparr>Cnew := c, I := I s @ [I_charge cfg], C := C s @ [c],
              level := level s @ [c / Cmaxmin cfg * 100]\<rparr>)
         else
           (let I_charge_reduced = Pavail / U_bat cfg;
                c = Cnew s + I_charge_reduced * (T cfg / 360 * step cfg) in
            s\<lparr>Cnew := c, I := I s @ [I_charge_reduced], C := C s @ [c],
              level := level s @ [c / Cmaxmin cfg * 100]\<rparr>))
      else
        (let Pleft = Ptotal cfg angle - Psolar angle;
             I_discharge = Pleft / U_bat cfg;
             c = Cnew s - I_discharge * (T cfg / 360 * step cfg) in
         s\<lparr>Cnew := c, I := I s @ [- I_discharge], C := C s @ [c],
           level := level s @ [c / Cmaxmin cfg * 100]\<rparr>))"

fun battery_loop :: "config \<Rightarrow> battery \<Rightarrow> real list \<Rightarrow> battery" where
  "battery_loop cfg s [] = s"
| "battery_loop cfg s (angle # rest) = battery_loop cfg (battery_step cfg s angle) rest"

subsection \<open>The script as a whole\<close>

text \<open>
  \<open>np.arange\<close> is library code. At line 40, \<open>np.arange(0, 360, step)\<close> raises for a
  zero step. It also raises for a step so small that the array cannot be built, with a
  bound that depends on the platform; whether it did is not decided here but is the
  parameter \<open>arange_raised\<close> of the model. When the call returns, the array has the entries
  \<open>i * step\<close> for \<open>i\<close> below the ceiling of \<open>360 / step\<close>, and it is empty for a
  negative step: this is \<open>angles\<close>.

  After line 40 the script raises in one more place before the loop: the Python division
  \<open>Cmax/charging_speed\<close> raises ZeroDivisionError for a zero divisor. Nothing is
  checked, and nothing raises inside the loop. The quotients by \<open>U_bat\<close> have a
  float64 dividend and give inf or nan for a zero divisor. The quotient
  \<open>Cnew/Cmaxmin\<close> divides two Python floats only as long as no discharging or
  reduced-rate iteration has made \<open>Cnew\<close> a float64, and its divisor is zero only for
  a zero capacity; then the charging power is zero as well, and the first iteration, at
  angle 0 without solar power, is a discharging one.
\<close>

datatype error = ArangeError | ZeroDivisionError

definition angles :: "config \<Rightarrow> real list" where
  "angles cfg = map (\<lambda>i. real i * step cfg) [0..<nat \<lceil>360 / step cfg\<rceil>]"

definition powersupply :: "bool \<Rightarrow> config \<Rightarrow> error + battery" where
  "powersupply arange_raised cfg =
     (if step cfg = 0 \<or> arange_raised then Inl ArangeError
      else if charging_speed cfg = 0 then Inl ZeroDivisionError
      else Inr (battery_loop cfg (battery_init cfg) (angles cfg)))"

subsection \<open>Configurations used as examples\<close>

text \<open>The script's configuration with the three periodic subsystems switched off.\<close>

definition idle_only :: config where
  "idle_only = nanosat\<lparr>rxtx_active := False, cam_active := False, AC_active := False\<rparr>"

text \<open>
  A small battery that is charged quickly, swept in four steps of 90 degrees with the
  periodic subsystems switched off: it is full after the second step.
\<close>

definition quarter_sweep :: config where
  "quarter_sweep = \<lparr>T = 90, step = 90, rxtx_active = False, cam_active = False,
     AC_active = False, Cmax = 15, charging_speed = 3 / 8, U_bat = 37 / 10\<rparr>"

text \<open>The script's configuration with a battery of a thousandth of a mAh.\<close>

definition tiny_battery :: config where
  "tiny_battery = nanosat\<lparr>Cmax := 1 / 1000\<rparr>"

text \<open>The script's configuration with a negative capacity and a negative voltage.\<close>

definition negative_battery :: config where
  "negative_battery = nanosat\<lparr>Cmax := - 200, U_bat := - (37 / 10)\<rparr>"

section \<open>Evaluation lemmas\<close>

lemmas load_consts = gps_idle_def mcu_idle_def imu_idle_def rxtx_idle_def cam_idle_def
  ac_idle_def env_idle_def Pidle_def P_rxtx_def T_rxtx_def start_rxtx_def end_rxtx_def
  f_rxtx_def P_cam_def T_cam_def start_cam_def end_cam_def f_cam_def P_ac_def T_ac_def
  start_ac_def f_ac_def time2deg_def

lemmas battery_consts = Cmaxmin_def I_charge_def Pcharge_def

lemma Psolar_0: "Psolar 0 = 0"
  by (simp add: Psolar_def deg2rad_def)

lemma Psolar_90: "Psolar 90 = 220"
  by (simp add: Psolar_def deg2rad_def Pmax_def)

lemma Psolar_45: "Psolar 45 = 110 * sqrt 2"
proof -
  have "deg2rad 45 = pi / 4"
    by (simp add: deg2rad_def)
  then have s: "sin (deg2rad 45) = sqrt 2 / 2"
    by (simp only: sin_45)
  show ?thesis
    unfolding Psolar_def Pmax_def s by simp
qed

lemma sqrt2_bounds: "1279 / 1100 < sqrt 2" "sqrt 2 < 2"
proof -
  have "(1279 / 1100 :: real)\<^sup>2 < 2"
    by (simp add: power2_eq_square)
  then show "1279 / 1100 < sqrt 2"
    by (rule real_less_rsqrt)
  show "sqrt 2 < 2"
    by (rule real_less_lsqrt) simp_all
qed

lemma Ptotal_no_loads:
  "\<not> rxtx_active cfg \<Longrightarrow> \<not> cam_active cfg \<Longrightarrow> \<not> AC_active cfg \<Longrightarrow>
   Ptotal cfg a = 679 / 10"
  by (simp add: Ptotal_def Pactive_def load_consts)

lemma Ptotal_all_loads_0:
  "rxtx_active cfg \<Longrightarrow> cam_active cfg \<Longrightarrow> AC_active cfg \<Longrightarrow> Ptotal cfg 0 = 1939 / 10"
  by (simp add: Ptotal_def Pactive_def cam_on_def rxtx_on_def ac_on_def fmod_def load_consts)

lemma Ptotal_nanosat_45: "Ptotal nanosat 45 = 1279 / 10"
  by (simp add: Ptotal_def Pactive_def cam_on_def rxtx_on_def ac_on_def fmod_def load_consts
      nanosat_def)

lemma idle_only_consts:
  "Cmaxmin idle_only = 12000" "I_charge idle_only = 40" "Pcharge idle_only = 148"
  "U_bat idle_only = 37 / 10" "T idle_only = 90" "step idle_only = 1 / 60"
  "Ptotal idle_only a = 679 / 10" "Cmax idle_only = 200" "charging_speed idle_only = 5"
  by (simp_all add: battery_consts idle_only_def nanosat_def Ptotal_no_loads)

lemma angles_quarter: "angles quarter_sweep = [0, 90, 180, 270]"
  by (simp add: angles_def quarter_sweep_def upt_rec)

lemma quarter_consts:
  "Cmaxmin quarter_sweep = 900" "I_charge quarter_sweep = 40" "Pcharge quarter_sweep = 148"
  "U_bat quarter_sweep = 37 / 10" "T quarter_sweep = 90" "step quarter_sweep = 90"
  "Ptotal quarter_sweep a = 679 / 10" "Cmax quarter_sweep = 15"
  "charging_speed quarter_sweep = 3 / 8"
  by (simp_all add: battery_consts quarter_sweep_def Ptotal_no_loads)

lemma quarter_init:
  "battery_init quarter_sweep = \<lparr>Cnew = 450, C = [], I = [], level = []\<rparr>"
  by (simp add: battery_init_def quarter_consts)

lemma quarter_step1:
  "battery_step quarter_sweep \<lparr>Cnew = 450, C = [], I = [], level = []\<rparr> 0 =
     \<lparr>Cnew = 2745 / 74, C = [2745 / 74], I = [- (679 / 37)], level = [305 / 74]\<rparr>"
  by (simp add: battery_step_def quarter_consts Psolar_0 Let_def)

lemma quarter_step2:
  "battery_step quarter_sweep
     \<lparr>Cnew = 2745 / 74, C = [2745 / 74], I = [- (679 / 37)], level = [305 / 74]\<rparr> 90 =
     \<lparr>Cnew = 69345 / 74, C = [2745 / 74, 69345 / 74], I = [- (679 / 37), 40],
      level = [305 / 74, 7705 / 74]\<rparr>"
  by (simp add: battery_step_def quarter_consts Psolar_90 Let_def)

lemma quarter_step_full:
  "battery_step quarter_sweep \<lparr>Cnew = 69345 / 74, C = cs, I = js, level = ls\<rparr> a =
     \<lparr>Cnew = 69345 / 74, C = cs @ [900], I = js @ [0], level = ls\<rparr>"
  by (simp add: battery_step_def quarter_consts)

lemma quarter_loop:
  "battery_loop quarter_sweep (battery_init quarter_sweep) [0, 90, 180, 270] =
     \<lparr>Cnew = 69345 / 74, C = [2745 / 74, 69345 / 74, 900, 900],
      I = [- (679 / 37), 40, 0, 0], level = [305 / 74, 7705 / 74]\<rparr>"
  by (simp add: quarter_init quarter_step1 quarter_step2 quarter_step_full)

lemma quarter_run:
  "powersupply False quarter_sweep =
     Inr \<lparr>Cnew = 69345 / 74, C = [2745 / 74, 69345 / 74, 900, 900],
          I = [- (679 / 37), 40, 0, 0], level = [305 / 74, 7705 / 74]\<rparr>"
  unfolding powersupply_def angles_quarter quarter_loop by (simp add: quarter_consts)

section \<open>Lengths of the output series\<close>

lemma length_I_step: "length (I (battery_step cfg s a)) = Suc (length (I s))"
  by (simp add: battery_step_def Let_def)

lemma length_C_step: "length (C (battery_step cfg s a)) = Suc (length (C s))"
  by (simp add: battery_step_def Let_def)

lemma length_level_step:
  "length (level (battery_step cfg s a)) =
     (if Cnew s > Cmaxmin cfg then length (level s) else Suc (length (level s)))"
  by (simp add: battery_step_def Let_def)

lemma length_I_loop: "length (I (battery_loop cfg s as)) = length (I s) + length as"
  by (induction as arbitrary: s) (simp_all add: length_I_step)

lemma length_C_loop: "length (C (battery_loop cfg s as)) = length (C s) + length as"
  by (induction as arbitrary: s) (simp_all add: length_C_step)

text \<open>
  C1. The claim: each of the three series gets one entry for every angle step, also in the
  saturated branch. The charge and current series do (\<open>length_C_loop\<close>,
  \<open>length_I_loop\<close>), but the saturated branch appends nothing to the percentage
  series (\<open>length_level_step\<close>). Run on \<open>quarter_sweep\<close>, whose sweep has the four
  angles 0, 90, 180 and 270, the script ends with four charges, four currents and only two
  percentage levels.
\<close>

theorem level_series_short:
  "length (angles quarter_sweep) = 4
   \<and> map_sum id (\<lambda>out. (length (C out), length (I out), length (level out)))
       (powersupply False quarter_sweep) = Inr (4, 4, 2)"
  by (simp add: quarter_run angles_quarter)

section \<open>The saturated branch\<close>

text \<open>
  Once the running charge is above the capacity it is never changed again: every later
  iteration takes the saturated branch, whatever the solar power and the load are.
\<close>

lemma saturated_forever:
  "Cnew s > Cmaxmin cfg \<Longrightarrow>
   battery_loop cfg s as =
     s\<lparr>I := I s @ replicate (length as) 0, C := C s @ replicate (length as) (Cmaxmin cfg)\<rparr>"
proof (induction as arbitrary: s)
  case Nil
  then show ?case by simp
next
  case (Cons a as)
  let ?s = "s\<lparr>I := I s @ [0], C := C s @ [Cmaxmin cfg]\<rparr>"
  have st: "battery_step cfg s a = ?s"
    using Cons.prems by (simp add: battery_step_def)
  have "Cnew ?s > Cmaxmin cfg"
    using Cons.prems by simp
  from Cons.IH [OF this] show ?case
    by (simp add: st replicate_append_same)
qed

text \<open>
  C2, as amended. The saturated branch is taken when the running charge is strictly above
  the capacity; that iteration records the capacity as its charge and zero as its net
  current.
\<close>

theorem saturated_step_records:
  "Cnew s > Cmaxmin cfg \<Longrightarrow>
   I (battery_step cfg s angle) = I s @ [0]
   \<and> C (battery_step cfg s angle) = C s @ [Cmaxmin cfg]"
  by (simp add: battery_step_def)

theorem saturated_step_records_witness:
  "Cnew \<lparr>Cnew = 12001, C = [], I = [], level = []\<rparr> > Cmaxmin idle_only
   \<and> I (battery_step idle_only \<lparr>Cnew = 12001, C = [], I = [], level = []\<rparr> 90) = [0]
   \<and> C (battery_step idle_only \<lparr>Cnew = 12001, C = [], I = [], level = []\<rparr> 90) = [12000]"
  using saturated_step_records [of idle_only "\<lparr>Cnew = 12001, C = [], I = [], level = []\<rparr>" 90]
  by (simp add: idle_only_consts)

text \<open>
  C2 as stated fails where the charge equals the capacity: the test of the script is a
  strict one, so with the periodic loads off and the sun at 90 degrees a battery that is
  exactly full is charged at the nominal current and its charge is recorded above the
  capacity.
\<close>

theorem full_battery_keeps_charging:
  "Cnew \<lparr>Cnew = 12000, C = [], I = [], level = []\<rparr> \<ge> Cmaxmin idle_only
   \<and> I (battery_step idle_only \<lparr>Cnew = 12000, C = [], I = [], level = []\<rparr> 90) = [40]
   \<and> C (battery_step idle_only \<lparr>Cnew = 12000, C = [], I = [], level = []\<rparr> 90)
       = [12000 + 1 / 6]
   \<and> Cnew (battery_step idle_only \<lparr>Cnew = 12000, C = [], I = [], level = []\<rparr> 90)
       = 12000 + 1 / 6"
  by (simp add: battery_step_def idle_only_consts Psolar_90 Let_def)

section \<open>Bounds on the recorded charge\<close>

lemma C_step_append: "\<exists>c. C (battery_step cfg s a) = C s @ [c]"
  by (simp add: battery_step_def Let_def)

lemma C_loop_append: "\<exists>cs. C (battery_loop cfg s as) = C s @ cs"
proof (induction as arbitrary: s)
  case Nil
  then show ?case by simp
next
  case (Cons a as)
  obtain c where c: "C (battery_step cfg s a) = C s @ [c]"
    using C_step_append by blast
  obtain cs where
    "C (battery_loop cfg (battery_step cfg s a) as) = C (battery_step cfg s a) @ cs"
    using Cons.IH by blast
  then show ?case
    using c by simp
qed

text \<open>
  One iteration raises the running charge by at most the nominal increment, and what it
  records is at most the capacity plus that increment.
\<close>

lemma step_upper:
  assumes u: "U_bat cfg > 0" and i: "I_charge cfg \<ge> 0" and d: "T cfg / 360 * step cfg \<ge> 0"
    and inv: "Cnew s \<le> Cmaxmin cfg + I_charge cfg * (T cfg / 360 * step cfg)"
  shows "Cnew (battery_step cfg s a) \<le> Cmaxmin cfg + I_charge cfg * (T cfg / 360 * step cfg)
    \<and> (\<exists>c. C (battery_step cfg s a) = C s @ [c]
          \<and> c \<le> Cmaxmin cfg + I_charge cfg * (T cfg / 360 * step cfg))"
proof -
  let ?dt = "T cfg / 360 * step cfg"
  have b: "0 \<le> I_charge cfg * ?dt"
    using i d by simp
  show ?thesis
  proof (cases "Cnew s > Cmaxmin cfg")
    case True
    then show ?thesis
      using b inv by (simp add: battery_step_def)
  next
    case sat: False
    show ?thesis
    proof (cases "Psolar a > Ptotal cfg a + Pcharge cfg")
      case True
      have "I_charge cfg * U_bat cfg < Psolar a - Ptotal cfg a"
        using True by (simp add: Pcharge_def mult.commute)
      then have "I_charge cfg \<le> (Psolar a - Ptotal cfg a) / U_bat cfg"
        using u by (simp add: pos_le_divide_eq)
      then show ?thesis
        using sat True by (simp add: battery_step_def Let_def)
    next
      case False
      then have "Psolar a - Ptotal cfg a \<le> I_charge cfg * U_bat cfg"
        by (simp add: Pcharge_def mult.commute)
      then have "(Psolar a - Ptotal cfg a) / U_bat cfg \<le> I_charge cfg"
        using u by (simp add: pos_divide_le_eq)
      then have "(Psolar a - Ptotal cfg a) / U_bat cfg * ?dt \<le> I_charge cfg * ?dt"
        using d by (rule mult_right_mono)
      moreover have "(Ptotal cfg a - Psolar a) / U_bat cfg * ?dt
          = - ((Psolar a - Ptotal cfg a) / U_bat cfg * ?dt)"
        by (simp only: minus_divide_left minus_diff_eq mult_minus_left [symmetric])
      ultimately have "Cnew s - (Ptotal cfg a - Psolar a) / U_bat cfg * ?dt
          \<le> Cmaxmin cfg + I_charge cfg * ?dt"
        using sat by linarith
      then show ?thesis
        using sat False by (simp add: battery_step_def Let_def)
    qed
  qed
qed

lemma loop_upper:
  assumes u: "U_bat cfg > 0" and i: "I_charge cfg \<ge> 0" and d: "T cfg / 360 * step cfg \<ge> 0"
  shows "Cnew s \<le> Cmaxmin cfg + I_charge cfg * (T cfg / 360 * step cfg) \<Longrightarrow>
    \<forall>c \<in> set (C s). c \<le> Cmaxmin cfg + I_charge cfg * (T cfg / 360 * step cfg) \<Longrightarrow>
    \<forall>c \<in> set (C (battery_loop cfg s as)).
       c \<le> Cmaxmin cfg + I_charge cfg * (T cfg / 360 * step cfg)"
proof (induction as arbitrary: s)
  case Nil
  then show ?case by simp
next
  case (Cons a as)
  from step_upper [OF u i d Cons.prems(1), of a]
  obtain c where
    s1: "Cnew (battery_step cfg s a) \<le> Cmaxmin cfg + I_charge cfg * (T cfg / 360 * step cfg)"
    and s2: "C (battery_step cfg s a) = C s @ [c]"
    and s3: "c \<le> Cmaxmin cfg + I_charge cfg * (T cfg / 360 * step cfg)"
    by blast
  have "\<forall>c \<in> set (C (battery_step cfg s a)).
      c \<le> Cmaxmin cfg + I_charge cfg * (T cfg / 360 * step cfg)"
    using s2 s3 Cons.prems(2) by simp
  from Cons.IH [OF s1 this] show ?case
    by simp
qed

text \<open>
  C3, as amended. For a run of the script with positive capacity, positive voltage,
  positive charging speed and a non-negative period, every recorded charge is at most the
  capacity plus the charge of one step at the nominal current. Nothing bounds the
  recorded charge from below.
\<close>

theorem recorded_charge_upper_bound:
  assumes "powersupply r cfg = Inr out" and "Cmax cfg > 0" and "U_bat cfg > 0"
    and "charging_speed cfg > 0" and "T cfg \<ge> 0"
  shows "\<forall>c \<in> set (C out). c \<le> Cmaxmin cfg + I_charge cfg * (T cfg / 360 * step cfg)"
proof -
  have out: "out = battery_loop cfg (battery_init cfg) (angles cfg)"
    using assms(1) by (auto simp: powersupply_def split: if_splits)
  have i: "I_charge cfg \<ge> 0"
    using assms(2,4) by (simp add: I_charge_def)
  show ?thesis
  proof (cases "step cfg > 0")
    case True
    then have d: "T cfg / 360 * step cfg \<ge> 0"
      using assms(5) by simp
    have "Cnew (battery_init cfg) \<le> Cmaxmin cfg"
      using assms(2) by (simp add: battery_init_def Cmaxmin_def)
    moreover have "0 \<le> I_charge cfg * (T cfg / 360 * step cfg)"
      using i d by (rule mult_nonneg_nonneg)
    ultimately have
      "Cnew (battery_init cfg) \<le> Cmaxmin cfg + I_charge cfg * (T cfg / 360 * step cfg)"
      by linarith
    moreover have "\<forall>c \<in> set (C (battery_init cfg)).
        c \<le> Cmaxmin cfg + I_charge cfg * (T cfg / 360 * step cfg)"
      by (simp add: battery_init_def)
    ultimately show ?thesis
      unfolding out using loop_upper [OF assms(3) i d] by blast
  next
    case False
    then have "step cfg \<le> 0"
      by simp
    then have "360 / step cfg \<le> 0"
      by (simp add: divide_nonneg_nonpos)
    then have "\<lceil>360 / step cfg\<rceil> \<le> 0"
      by (simp add: ceiling_le_iff)
    then have "angles cfg = []"
      by (simp add: angles_def)
    then show ?thesis
      by (simp add: out battery_init_def)
  qed
qed

theorem recorded_charge_upper_bound_witness:
  "powersupply False quarter_sweep =
     Inr \<lparr>Cnew = 69345 / 74, C = [2745 / 74, 69345 / 74, 900, 900],
          I = [- (679 / 37), 40, 0, 0], level = [305 / 74, 7705 / 74]\<rparr>
   \<and> Cmax quarter_sweep > 0 \<and> U_bat quarter_sweep > 0 \<and> charging_speed quarter_sweep > 0
   \<and> T quarter_sweep \<ge> 0
   \<and> Cmaxmin quarter_sweep
       + I_charge quarter_sweep * (T quarter_sweep / 360 * step quarter_sweep) = 1800
   \<and> (2745 / 74 :: real) \<le> 1800 \<and> (69345 / 74 :: real) \<le> 1800 \<and> (900 :: real) \<le> 1800"
  using recorded_charge_upper_bound [OF quarter_run]
  by (simp add: quarter_run quarter_consts)

text \<open>
  C3 as stated fails from below: the script's own sweep and loads, with a capacity of a
  thousandth of a mAh, record a negative charge at the very first angle.
\<close>

lemma angles_tiny:
  "angles tiny_battery = 0 # map (\<lambda>i. real i * (1 / 60)) [Suc 0..<21600]"
proof -
  have "[0..<21600] = 0 # [Suc 0..<21600]"
    by (rule upt_conv_Cons) simp
  then show ?thesis
    by (simp add: angles_def tiny_battery_def nanosat_def)
qed

lemma tiny_first_step:
  "battery_step tiny_battery (battery_init tiny_battery) 0 =
    \<lparr>Cnew = 3 / 100 - 1939 / 8880, C = [3 / 100 - 1939 / 8880], I = [- (1939 / 37)],
     level = [(3 / 100 - 1939 / 8880) / (6 / 100) * 100]\<rparr>"
proof -
  have "Ptotal tiny_battery 0 = 1939 / 10"
    by (rule Ptotal_all_loads_0) (simp_all add: tiny_battery_def nanosat_def)
  then show ?thesis
    by (simp add: battery_step_def battery_init_def battery_consts Psolar_0 Let_def
        tiny_battery_def nanosat_def)
qed

theorem charge_below_zero:
  "0 < Cmax tiny_battery
   \<and> powersupply False tiny_battery =
       Inr (battery_loop tiny_battery (battery_init tiny_battery) (angles tiny_battery))
   \<and> C (battery_loop tiny_battery (battery_init tiny_battery) (angles tiny_battery)) ! 0 < 0"
proof -
  obtain cs where
    "C (battery_loop tiny_battery (battery_step tiny_battery (battery_init tiny_battery) 0)
       (map (\<lambda>i. real i * (1 / 60)) [Suc 0..<21600])) =
     C (battery_step tiny_battery (battery_init tiny_battery) 0) @ cs"
    using C_loop_append by blast
  then have
    "C (battery_loop tiny_battery (battery_init tiny_battery) (angles tiny_battery)) ! 0
      = 3 / 100 - 1939 / 8880"
    by (simp add: angles_tiny tiny_first_step)
  moreover have "0 < Cmax tiny_battery" "step tiny_battery \<noteq> 0"
    "charging_speed tiny_battery \<noteq> 0"
    by (simp_all add: tiny_battery_def nanosat_def)
  ultimately show ?thesis
    by (simp add: powersupply_def)
qed

section \<open>The charging and discharging branches\<close>

text \<open>
  C4, as amended. In an iteration that is neither saturated nor in surplus, with a
  positive voltage, the script takes the difference of load and solar power, divides it
  by the battery voltage, lowers the charge by that current times the duration of a step
  and records the negated current. That recorded current is negative exactly when the
  load is strictly above the solar power.
\<close>

theorem deficit_step_records:
  assumes "U_bat cfg > 0" and "\<not> Cnew s > Cmaxmin cfg"
    and "\<not> Psolar angle > Ptotal cfg angle + Pcharge cfg"
  shows "Cnew (battery_step cfg s angle) =
      Cnew s - (Ptotal cfg angle - Psolar angle) / U_bat cfg * (T cfg / 360 * step cfg)
    \<and> I (battery_step cfg s angle) = I s @ [- ((Ptotal cfg angle - Psolar angle) / U_bat cfg)]
    \<and> C (battery_step cfg s angle) = C s @ [Cnew (battery_step cfg s angle)]
    \<and> (- ((Ptotal cfg angle - Psolar angle) / U_bat cfg) < 0
        \<longleftrightarrow> Psolar angle < Ptotal cfg angle)"
proof -
  have "(0 < (Ptotal cfg angle - Psolar angle) / U_bat cfg) = (Psolar angle < Ptotal cfg angle)"
    using assms(1) by (simp add: zero_less_divide_iff)
  then show ?thesis
    using assms(2,3) by (simp add: battery_step_def Let_def)
qed

theorem deficit_step_records_witness:
  "U_bat idle_only > 0 \<and> \<not> Cnew (battery_init idle_only) > Cmaxmin idle_only
   \<and> \<not> Psolar 0 > Ptotal idle_only 0 + Pcharge idle_only
   \<and> Cnew (battery_step idle_only (battery_init idle_only) 0) = 6000 - 679 / 37 * (1 / 240)
   \<and> I (battery_step idle_only (battery_init idle_only) 0) = [- (679 / 37)]
   \<and> C (battery_step idle_only (battery_init idle_only) 0) = [6000 - 679 / 37 * (1 / 240)]
   \<and> Psolar 0 < Ptotal idle_only 0"
  using deficit_step_records [of idle_only "battery_init idle_only" 0]
  by (simp add: idle_only_consts Psolar_0 battery_init_def)

text \<open>
  C4 as stated fails where the sun covers the load but not the nominal charging power on
  top of it. With the script's own configuration at 45 degrees the solar power is
  \<open>110 * sqrt 2\<close>, the load is 127.9 and the charging power 148: the iteration is
  neither saturated nor in surplus, and the current it records is positive.
\<close>

theorem positive_current_without_surplus:
  "\<not> Cnew (battery_init nanosat) > Cmaxmin nanosat
   \<and> \<not> Psolar 45 > Ptotal nanosat 45 + Pcharge nanosat
   \<and> I (battery_step nanosat (battery_init nanosat) 45)
       = [(110 * sqrt 2 - 1279 / 10) / (37 / 10)]
   \<and> 0 < (110 * sqrt 2 - 1279 / 10) / (37 / 10)"
proof -
  have c: "Cmaxmin nanosat = 12000" "Pcharge nanosat = 148" "U_bat nanosat = 37 / 10"
    by (simp_all add: battery_consts nanosat_def)
  have a: "\<not> Cnew (battery_init nanosat) > Cmaxmin nanosat"
    by (simp add: battery_init_def c)
  have b: "\<not> Psolar 45 > Ptotal nanosat 45 + Pcharge nanosat"
    using sqrt2_bounds(2) by (simp add: Psolar_45 Ptotal_nanosat_45 c)
  have "I (battery_step nanosat (battery_init nanosat) 45)
      = [- ((1279 / 10 - 110 * sqrt 2) / (37 / 10))]"
    using a b
    by (simp add: battery_step_def Let_def Psolar_45 Ptotal_nanosat_45 c battery_init_def)
  moreover have "- ((1279 / 10 - 110 * sqrt 2) / (37 / 10))
      = (110 * sqrt 2 - 1279 / 10) / (37 / 10)"
    by (simp only: minus_divide_left minus_diff_eq)
  moreover have "0 < (110 * sqrt 2 - 1279 / 10) / (37 / 10)"
    using sqrt2_bounds(1) by simp
  ultimately show ?thesis
    using a b by simp
qed

text \<open>
  C5. With capacity 200, charging speed 5 (a nominal charge current of 40) and voltage
  3.7, an iteration that is not saturated and whose angle is in surplus raises the charge
  by exactly \<open>40 * (T / 360 * step)\<close>, and records the current 40 and the new charge.
  The witness is the initial charge of 6000 mAmin (100 mAh, 50 percent) at 90 degrees with
  the periodic loads off.
\<close>

theorem nominal_charge_step:
  assumes "Cmax cfg = 200" and "charging_speed cfg = 5" and "U_bat cfg = 37 / 10"
    and "\<not> Cnew s > Cmaxmin cfg"
    and "Psolar angle > Ptotal cfg angle + Pcharge cfg"
  shows "Cnew (battery_step cfg s angle) = Cnew s + 40 * (T cfg / 360 * step cfg)
    \<and> I (battery_step cfg s angle) = I s @ [40]
    \<and> C (battery_step cfg s angle) = C s @ [Cnew s + 40 * (T cfg / 360 * step cfg)]"
proof -
  have i: "I_charge cfg = 40"
    using assms(1,2) by (simp add: I_charge_def)
  have "40 * (37 / 10) < Psolar angle - Ptotal cfg angle"
    using assms(3,5) i by (simp add: Pcharge_def)
  then have "40 \<le> (Psolar angle - Ptotal cfg angle) / U_bat cfg"
    using assms(3) by (simp add: pos_le_divide_eq)
  then show ?thesis
    using assms(4,5) i by (simp add: battery_step_def Let_def)
qed

theorem nominal_charge_step_witness:
  "Cmax idle_only = 200 \<and> charging_speed idle_only = 5 \<and> U_bat idle_only = 37 / 10
   \<and> Cnew (battery_init idle_only) = 6000
   \<and> \<not> Cnew (battery_init idle_only) > Cmaxmin idle_only
   \<and> Psolar 90 > Ptotal idle_only 90 + Pcharge idle_only
   \<and> Cnew (battery_step idle_only (battery_init idle_only) 90)
       = 6000 + 40 * (90 / 360 * (1 / 60))
   \<and> I (battery_step idle_only (battery_init idle_only) 90) = [40]
   \<and> C (battery_step idle_only (battery_init idle_only) 90)
       = [6000 + 40 * (90 / 360 * (1 / 60))]"
  using nominal_charge_step [of idle_only "battery_init idle_only" 90]
  by (simp add: idle_only_consts Psolar_90 battery_init_def)

text \<open>
  C8. With a positive voltage, whenever an iteration is not saturated and in surplus, the
  surplus current (solar power minus load, over the voltage) is strictly above the
  nominal charge current: the test of the inner branch succeeds, the reduced-rate branch
  is not taken, and the recorded current is the nominal one.
\<close>

theorem reduced_rate_unreachable:
  assumes "U_bat cfg > 0" and "\<not> Cnew s > Cmaxmin cfg"
    and "Psolar angle > Ptotal cfg angle + Pcharge cfg"
  shows "(Psolar angle - Ptotal cfg angle) / U_bat cfg > I_charge cfg
    \<and> I (battery_step cfg s angle) = I s @ [I_charge cfg]"
proof -
  have "I_charge cfg * U_bat cfg < Psolar angle - Ptotal cfg angle"
    using assms(3) by (simp add: Pcharge_def mult.commute)
  then have "I_charge cfg < (Psolar angle - Ptotal cfg angle) / U_bat cfg"
    using assms(1) by (simp add: pos_less_divide_eq)
  then show ?thesis
    using assms(2,3) by (simp add: battery_step_def Let_def)
qed

theorem reduced_rate_unreachable_witness:
  "U_bat idle_only > 0 \<and> \<not> Cnew (battery_init idle_only) > Cmaxmin idle_only
   \<and> Psolar 90 > Ptotal idle_only 90 + Pcharge idle_only
   \<and> (Psolar 90 - Ptotal idle_only 90) / U_bat idle_only > I_charge idle_only
   \<and> I (battery_step idle_only (battery_init idle_only) 90) = [40]"
  using reduced_rate_unreachable [of idle_only "battery_init idle_only" 90]
  by (simp add: idle_only_consts Psolar_90 battery_init_def)

section \<open>What the script rejects\<close>

lemma nanosat_accepted: "\<not> isl (powersupply False nanosat)"
  by (simp add: powersupply_def nanosat_def)

text \<open>
  C6, as amended. The script validates neither the battery capacity nor the voltage nor
  the charging current. Whether a run is rejected before the loop is the same for every
  capacity \<open>c\<close> and voltage \<open>u\<close>, zero and negative ones included, and with them for
  every charging current \<open>c / charging_speed\<close>: a configuration with such values is
  accepted whenever the same configuration with valid values is.
\<close>

theorem battery_values_not_validated:
  "isl (powersupply r (cfg\<lparr>Cmax := c, U_bat := u\<rparr>)) = isl (powersupply r cfg)
   \<and> I_charge (cfg\<lparr>Cmax := c, U_bat := u\<rparr>) = c / charging_speed cfg"
  by (simp add: powersupply_def I_charge_def)

theorem battery_values_not_validated_witness:
  "\<not> isl (powersupply False (nanosat\<lparr>Cmax := 0, U_bat := 0\<rparr>))
   \<and> I_charge (nanosat\<lparr>Cmax := 0, U_bat := 0\<rparr>) = 0"
  using battery_values_not_validated [where r = False and cfg = nanosat and c = 0 and u = 0]
    nanosat_accepted
  by simp

text \<open>
  C6 as stated fails: with a capacity of -200 and a voltage of -3.7, hence a charging
  current of -40, nothing is rejected. The loop runs over all 21600 angles, each time in
  the saturated branch, and records the negative capacity.
\<close>

theorem invalid_battery_accepted:
  "Cmax negative_battery < 0 \<and> U_bat negative_battery < 0 \<and> I_charge negative_battery < 0
   \<and> powersupply False negative_battery =
       Inr \<lparr>Cnew = - 6000, C = replicate 21600 (- 12000), I = replicate 21600 0,
            level = []\<rparr>"
proof -
  have c: "Cmaxmin negative_battery = - 12000" "I_charge negative_battery = - 40"
    "step negative_battery = 1 / 60" "charging_speed negative_battery = 5"
    "Cmax negative_battery = - 200" "U_bat negative_battery = - (37 / 10)"
    by (simp_all add: battery_consts negative_battery_def nanosat_def)
  have "Cnew (battery_init negative_battery) > Cmaxmin negative_battery"
    by (simp add: battery_init_def c)
  from saturated_forever [OF this, of "angles negative_battery"]
  have "battery_loop negative_battery (battery_init negative_battery) (angles negative_battery)
    = \<lparr>Cnew = - 6000, C = replicate 21600 (- 12000), I = replicate 21600 0, level = []\<rparr>"
    by (simp add: battery_init_def c angles_def)
  then show ?thesis
    by (simp add: powersupply_def c)
qed

section \<open>The periodic loads\<close>

lemma fmod_add_period:
  assumes "y \<noteq> 0"
  shows "fmod (y * of_int k + x) y = fmod x y"
proof -
  have "(y * of_int k + x) / y = of_int k + x / y"
    using assms by (simp add: add_divide_distrib)
  then have "\<lfloor>(y * of_int k + x) / y\<rfloor> = k + \<lfloor>x / y\<rfloor>"
    by simp
  then show ?thesis
    by (simp add: fmod_def algebra_simps)
qed

text \<open>Switching one subsystem on adds its peak draw exactly where its condition holds.\<close>

lemma Ptotal_cam:
  "Ptotal (cfg\<lparr>cam_active := b\<rparr>) a =
     Ptotal (cfg\<lparr>cam_active := False\<rparr>) a + (if b \<and> cam_on a then P_cam else 0)"
  by (simp add: Ptotal_def Pactive_def Let_def)

lemma Ptotal_rxtx:
  "Ptotal (cfg\<lparr>rxtx_active := b\<rparr>) a =
     Ptotal (cfg\<lparr>rxtx_active := False\<rparr>) a + (if b \<and> rxtx_on a then P_rxtx else 0)"
  by (simp add: Ptotal_def Pactive_def Let_def)

lemma Ptotal_AC:
  "Ptotal (cfg\<lparr>AC_active := b\<rparr>) a =
     Ptotal (cfg\<lparr>AC_active := False\<rparr>) a + (if b \<and> ac_on a then P_ac else 0)"
  by (simp add: Ptotal_def Pactive_def Let_def)

lemma cam_off_at_window_end: "\<not> cam_on end_cam"
  by (simp add: cam_on_def)

lemma rxtx_off_at_window_end: "\<not> rxtx_on end_rxtx"
  by (simp add: rxtx_on_def)

lemma cam_off_at_duty_end: "\<not> cam_on (f_cam * of_int k + time2deg T_cam)"
proof -
  have "fmod (f_cam * of_int k + time2deg T_cam) f_cam = fmod (time2deg T_cam) f_cam"
    by (rule fmod_add_period) (simp add: f_cam_def)
  also have "\<dots> = time2deg T_cam"
    by (simp add: fmod_def load_consts)
  finally show ?thesis
    by (simp add: cam_on_def)
qed

lemma ac_off_at_duty_end: "\<not> ac_on (f_ac * of_int k + time2deg T_ac)"
proof -
  have "fmod (f_ac * of_int k + time2deg T_ac) f_ac = fmod (time2deg T_ac) f_ac"
    by (rule fmod_add_period) (simp add: f_ac_def)
  also have "\<dots> = time2deg T_ac"
    by (simp add: fmod_def load_consts)
  finally show ?thesis
    by (simp add: ac_on_def)
qed

lemma rxtx_off_at_duty_end: "\<not> rxtx_on (f_rxtx * of_int k + end_rxtx)"
proof -
  have "fmod (f_rxtx * of_int k + end_rxtx) f_rxtx = fmod end_rxtx f_rxtx"
    by (rule fmod_add_period) (simp add: f_rxtx_def)
  also have "\<dots> = end_rxtx"
    by (simp add: fmod_def load_consts)
  finally show ?thesis
    by (simp add: rxtx_on_def)
qed

lemma on_at_start: "cam_on start_cam" "rxtx_on start_rxtx" "ac_on start_ac"
  by (simp_all add: cam_on_def rxtx_on_def ac_on_def fmod_def load_consts)

text \<open>
  C7. The end of every window is exclusive. At the end angle of the camera (180) and of
  the transceiver (120), and at the end of the duty window of the camera, the transceiver
  and the attitude control in every repetition \<open>k\<close>, the total load with the subsystem
  enabled is the total load with it disabled: its peak draw is not counted. The start of
  each window is inclusive: there the peak draw is counted.
\<close>

theorem end_angle_exclusive:
  "Ptotal (cfg\<lparr>cam_active := True\<rparr>) end_cam = Ptotal (cfg\<lparr>cam_active := False\<rparr>) end_cam
   \<and> Ptotal (cfg\<lparr>rxtx_active := True\<rparr>) end_rxtx
       = Ptotal (cfg\<lparr>rxtx_active := False\<rparr>) end_rxtx
   \<and> Ptotal (cfg\<lparr>cam_active := True\<rparr>) (f_cam * of_int k + time2deg T_cam)
       = Ptotal (cfg\<lparr>cam_active := False\<rparr>) (f_cam * of_int k + time2deg T_cam)
   \<and> Ptotal (cfg\<lparr>rxtx_active := True\<rparr>) (f_rxtx * of_int k + end_rxtx)
       = Ptotal (cfg\<lparr>rxtx_active := False\<rparr>) (f_rxtx * of_int k + end_rxtx)
   \<and> Ptotal (cfg\<lparr>AC_active := True\<rparr>) (f_ac * of_int k + time2deg T_ac)
       = Ptotal (cfg\<lparr>AC_active := False\<rparr>) (f_ac * of_int k + time2deg T_ac)
   \<and> Ptotal (cfg\<lparr>cam_active := True\<rparr>) start_cam
       = Ptotal (cfg\<lparr>cam_active := False\<rparr>) start_cam + P_cam
   \<and> Ptotal (cfg\<lparr>rxtx_active := True\<rparr>) start_rxtx
       = Ptotal (cfg\<lparr>rxtx_active := False\<rparr>) start_rxtx + P_rxtx
   \<and> Ptotal (cfg\<lparr>AC_active := True\<rparr>) start_ac
       = Ptotal (cfg\<lparr>AC_active := False\<rparr>) start_ac + P_ac"
  by (simp add: Ptotal_cam [where b = True] Ptotal_rxtx [where b = True]
      Ptotal_AC [where b = True] cam_off_at_window_end rxtx_off_at_window_end
      cam_off_at_duty_end rxtx_off_at_duty_end ac_off_at_duty_end on_at_start)

theorem end_angle_exclusive_witness:
  "Ptotal (nanosat\<lparr>cam_active := True\<rparr>) 180 = Ptotal (nanosat\<lparr>cam_active := False\<rparr>) 180
   \<and> Ptotal (nanosat\<lparr>rxtx_active := True\<rparr>) 120 = Ptotal (nanosat\<lparr>rxtx_active := False\<rparr>) 120
   \<and> Ptotal (nanosat\<lparr>AC_active := True\<rparr>) 14 = Ptotal (nanosat\<lparr>AC_active := False\<rparr>) 14
   \<and> Ptotal (nanosat\<lparr>rxtx_active := True\<rparr>) 60
       = Ptotal (nanosat\<lparr>rxtx_active := False\<rparr>) 60 + 1991 / 10"
  using end_angle_exclusive [of nanosat 1]
  by (simp add: load_consts)

text \<open>The condition of the attitude control, by phase and by interval.\<close>

lemma ac_on_fmod: "ac_on a \<longleftrightarrow> 0 \<le> fmod a 10 \<and> fmod a 10 < 4"
  by (simp add: ac_on_def load_consts)

lemma ac_on_window: "ac_on a \<longleftrightarrow> (\<exists>k::int. 10 * of_int k \<le> a \<and> a < 10 * of_int k + 4)"
proof
  assume on: "ac_on a"
  let ?k = "\<lfloor>a / 10\<rfloor>"
  have "10 * of_int ?k \<le> a \<and> a < 10 * of_int ?k + 4"
    using on by (simp add: ac_on_fmod fmod_def)
  then show "\<exists>k::int. 10 * of_int k \<le> a \<and> a < 10 * of_int k + 4"
    by blast
next
  assume "\<exists>k::int. 10 * of_int k \<le> a \<and> a < 10 * of_int k + 4"
  then obtain k :: int where k: "10 * of_int k \<le> a" "a < 10 * of_int k + 4"
    by blast
  have "\<lfloor>a / 10\<rfloor> = k"
    using k by (simp add: floor_eq_iff)
  then show "ac_on a"
    using k by (simp add: ac_on_fmod fmod_def)
qed

lemma ac_on_periodic: "ac_on (a + 10) = ac_on a"
proof -
  have "fmod (10 * of_int 1 + a) 10 = fmod a 10"
    by (rule fmod_add_period) simp
  then show ?thesis
    by (simp add: ac_on_fmod add.commute)
qed

text \<open>
  C9. The attitude control, when enabled, adds its peak draw of 66 at an angle exactly
  when the angle modulo 10 lies in [0, 4), that is when the angle lies in an interval
  \<open>[10 k, 10 k + 4)\<close> for some integer \<open>k\<close>. No absolute window enters the test, and
  its contribution at an angle and at that angle plus 10 are the same.
\<close>

theorem attitude_control_phase_only:
  "Ptotal (cfg\<lparr>AC_active := True\<rparr>) a =
     Ptotal (cfg\<lparr>AC_active := False\<rparr>) a
       + (if 0 \<le> fmod a 10 \<and> fmod a 10 < 4 then 66 else 0)
   \<and> ((0 \<le> fmod a 10 \<and> fmod a 10 < 4)
       = (\<exists>k::int. 10 * of_int k \<le> a \<and> a < 10 * of_int k + 4))
   \<and> Ptotal (cfg\<lparr>AC_active := True\<rparr>) (a + 10) - Ptotal (cfg\<lparr>AC_active := False\<rparr>) (a + 10)
     = Ptotal (cfg\<lparr>AC_active := True\<rparr>) a - Ptotal (cfg\<lparr>AC_active := False\<rparr>) a"
  using ac_on_window [of a] ac_on_periodic [of a]
  by (simp add: Ptotal_AC [where b = True] ac_on_fmod [symmetric] P_ac_def ac_idle_def)

theorem attitude_control_phase_only_witness:
  "Ptotal (nanosat\<lparr>AC_active := True\<rparr>) 353 = Ptotal (nanosat\<lparr>AC_active := False\<rparr>) 353 + 66
   \<and> Ptotal (nanosat\<lparr>AC_active := True\<rparr>) 357 = Ptotal (nanosat\<lparr>AC_active := False\<rparr>) 357"
  using attitude_control_phase_only [of nanosat 353] attitude_control_phase_only [of nanosat 357]
  by (simp add: fmod_def)

end
